theory Spec2Isabelle
  imports Main "HOL-Library.AList"
begin

section \<open>Python values used by the simulate step\<close>

text \<open>
  The development follows \<^verbatim>\<open>src/epengine/workflows/simulate.py\<close>. Python dictionaries keep
  insertion order, so a \<^verbatim>\<open>dict\<close> is an association list with distinct keys; the assignment
  \<^verbatim>\<open>d[k] = v\<close> is \<open>AList.update k v d\<close>, which overwrites the value of an existing key where
  it stands and appends a new key at the end. Text is a list of characters with code
  points below 256.
\<close>

datatype json = JNull | JBool bool | JInt int | JStr string | JList "json list"
  | JObj "(string \<times> json) list"

datatype cell = CStr string | CInt int | CJson json

text \<open>
  A \<^verbatim>\<open>pandas.DataFrame\<close> with a \<^verbatim>\<open>MultiIndex\<close>: the names of the index levels, one index
  tuple per row, and the columns with one cell per row.
\<close>

record dataframe =
  index_names :: "string list"
  index_tuples :: "json list list"
  columns :: "(string \<times> cell list) list"

text \<open>
  Exceptions: instances of \<^verbatim>\<open>Exception\<close>, which is what \<^verbatim>\<open>except Exception as e\<close> handles. Of
  the exception it binds the code only uses \<^verbatim>\<open>str(e)\<close>. \<^verbatim>\<open>KeyError\<close> is what the subscript
  of a dictionary raises for a key that it does not have; \<^verbatim>\<open>TypeError\<close> and \<^verbatim>\<open>ValueError\<close>
  are what pandas raises when it builds an index, each with its message.
\<close>

datatype exn = Exception string | KeyError string | TypeError string | ValueError string

text \<open>
  \<^verbatim>\<open>repr\<close> of a \<^verbatim>\<open>str\<close>: between apostrophes, or between double quotes when the text has
  an apostrophe and no double quote; the quote in use and the backslash are escaped, tab,
  line feed and carriage return are written \<^verbatim>\<open>\t\<close>, \<^verbatim>\<open>\n\<close>, \<^verbatim>\<open>\r\<close>, and every other character
  that is not printable is written \<^verbatim>\<open>\xNN\<close> (below code point 256: the control characters,
  the no-break space and the soft hyphen).
\<close>

definition hexdigit :: "nat \<Rightarrow> char" where
  "hexdigit n = ''0123456789abcdef'' ! n"

definition repr_char :: "char \<Rightarrow> char \<Rightarrow> string" where
  "repr_char quote c =
     (let n = (of_char c :: nat)
      in if c = quote \<or> c = CHR 0x5C then [CHR 0x5C, c]
         else if c = CHR 0x09 then [CHR 0x5C, CHR ''t'']
         else if c = CHR 0x0A then [CHR 0x5C, CHR ''n'']
         else if c = CHR 0x0D then [CHR 0x5C, CHR ''r'']
         else if n < 32 \<or> n = 127 \<or> (128 \<le> n \<and> n \<le> 160) \<or> n = 173
           then [CHR 0x5C, CHR ''x'', hexdigit (n div 16), hexdigit (n mod 16)]
         else [c])"

definition repr :: "string \<Rightarrow> string" where
  "repr s =
     (let quote = (if CHR 0x27 \<in> set s \<and> CHR 0x22 \<notin> set s then CHR 0x22 else CHR 0x27)
      in [quote] @ concat (map (repr_char quote) s) @ [quote])"

text \<open>
  \<^verbatim>\<open>str(e)\<close>: the message, and for a \<^verbatim>\<open>KeyError\<close> the \<^verbatim>\<open>repr\<close> of the key.
\<close>

fun str :: "exn \<Rightarrow> string" where
  "str (Exception msg) = msg"
| "str (KeyError k) = repr k"
| "str (TypeError msg) = msg"
| "str (ValueError msg) = msg"

section \<open>The index of a table\<close>

text \<open>
  \<^verbatim>\<open>pd.MultiIndex.from_tuples([tuple(index_data.values())], names=list(index_data.keys()))\<close>,
  for the one tuple that the code passes. pandas hashes the values of each level, in
  order, so a value that is a \<^verbatim>\<open>list\<close> or a \<^verbatim>\<open>dict\<close> raises \<^verbatim>\<open>TypeError\<close>; a tuple
  without values gives no level for the names and raises \<^verbatim>\<open>ValueError\<close>. Otherwise the index
  has the names and the one tuple.
\<close>

fun hashable :: "json \<Rightarrow> bool" where
  "hashable (JList xs) = False"
| "hashable (JObj kvs) = False"
| "hashable v = True"

fun type_name :: "json \<Rightarrow> string" where
  "type_name JNull = ''NoneType''"
| "type_name (JBool b) = ''bool''"
| "type_name (JInt i) = ''int''"
| "type_name (JStr s) = ''str''"
| "type_name (JList xs) = ''list''"
| "type_name (JObj kvs) = ''dict''"

definition from_tuples :: "json list \<Rightarrow> string list \<Rightarrow> exn + string list \<times> json list list" where
  "from_tuples tuple names =
     (if tuple = []
      then Inl (ValueError ''Length of names must match number of levels in MultiIndex.'')
      else case find (\<lambda>v. \<not> hashable v) tuple of
             Some v \<Rightarrow> Inl (TypeError (''unhashable type: '' @ repr (type_name v)))
           | None \<Rightarrow> Inr (names, [tuple]))"

section \<open>The two regular expressions of the diagnostics extraction\<close>

text \<open>
  \<^verbatim>\<open>re.match\<close> is a backtracking matcher anchored at the start of the text; it need not
  reach the end. The patterns of the source use three character classes, greedy
  repetition of a class, one capturing group around a greedy \<^verbatim>\<open>\d+\<close>, and literal text.
  No flag is given, so \<^verbatim>\<open>.\<close> matches every character but the line feed, and on \<^verbatim>\<open>str\<close>
  patterns \<^verbatim>\<open>\s\<close> is Unicode white space and \<^verbatim>\<open>\d\<close> a decimal digit (below code point 256:
  the twelve characters listed, and \<^verbatim>\<open>0\<close> to \<^verbatim>\<open>9\<close>).
\<close>

datatype cls = Dot | Space | Digit

fun cls_match :: "cls \<Rightarrow> char \<Rightarrow> bool" where
  "cls_match Dot c = (c \<noteq> CHR 0x0A)"
| "cls_match Space c = ((of_char c :: nat) \<in> {9, 10, 11, 12, 13, 28, 29, 30, 31, 32, 133, 160})"
| "cls_match Digit c = (48 \<le> (of_char c :: nat) \<and> (of_char c :: nat) \<le> 57)"

datatype tok = One cls | Star cls | Group_plus cls | Lit string

fun first_some :: "'a option list \<Rightarrow> 'a option" where
  "first_some [] = None"
| "first_some (None # rs) = first_some rs"
| "first_some (Some r # rs) = Some r"

text \<open>
  \<open>rmatch ts s\<close> is the list of captured groups of the first match, in the matcher's
  order of preference, of the token sequence \<open>ts\<close> at the start of \<open>s\<close>. A greedy
  repetition first takes the longest run of the class and gives characters back one at a
  time while the rest of the pattern fails.
\<close>

fun startswith :: "string \<Rightarrow> string \<Rightarrow> bool" where
  "startswith s [] = True"
| "startswith [] (p # ps) = False"
| "startswith (c # cs) (p # ps) = (c = p \<and> startswith cs ps)"

fun rmatch :: "tok list \<Rightarrow> string \<Rightarrow> string list option" where
  "rmatch [] s = Some []"
| "rmatch (One c # ts) [] = None"
| "rmatch (One c # ts) (x # xs) = (if cls_match c x then rmatch ts xs else None)"
| "rmatch (Lit l # ts) s = (if startswith s l then rmatch ts (drop (length l) s) else None)"
| "rmatch (Star c # ts) s =
     first_some (map (\<lambda>k. rmatch ts (drop k s))
       (rev [0 ..< Suc (length (takeWhile (cls_match c) s))]))"
| "rmatch (Group_plus c # ts) s =
     first_some (map (\<lambda>k. map_option ((#) (take k s)) (rmatch ts (drop k s)))
       (rev [1 ..< Suc (length (takeWhile (cls_match c) s))]))"

definition severe_reg :: "tok list" where
  "severe_reg = [Star Dot, One Space, Group_plus Digit, One Space, Lit ''Severe Errors'', Star Dot]"

definition warning_reg :: "tok list" where
  "warning_reg = [Star Dot, One Space, Group_plus Digit, One Space, Lit ''Warning'', Star Dot]"

text \<open>\<^verbatim>\<open>int(...)\<close> of a non-empty run of the digits \<^verbatim>\<open>0\<close> to \<^verbatim>\<open>9\<close>.\<close>

definition int_of_digits :: "string \<Rightarrow> int" where
  "int_of_digits ds = foldl (\<lambda>a c. 10 * a + (int (of_char c) - 48)) 0 ds"

text \<open>
  \<^verbatim>\<open>severe_ct = int(severe_matcher.groups()[0]) if severe_matcher else 0\<close>, and the same
  for the warnings. A match of either pattern has exactly one group, which is a run of
  digits that is not empty (lemma \<open>matched_groups\<close> below), so that \<^verbatim>\<open>groups()[0]\<close> and
  \<^verbatim>\<open>int\<close> do not raise.
\<close>

definition count_of :: "string list option \<Rightarrow> int" where
  "count_of matcher = (case matcher of None \<Rightarrow> 0 | Some groups \<Rightarrow> int_of_digits (hd groups))"

definition severe_ct :: "string \<Rightarrow> int" where
  "severe_ct err_str = count_of (rmatch severe_reg err_str)"

definition warning_ct :: "string \<Rightarrow> int" where
  "warning_ct err_str = count_of (rmatch warning_reg err_str)"

section \<open>The index of a simulation attempt\<close>

text \<open>
  \<^verbatim>\<open>SimulationSpecWithContext\<close> is a pydantic model whose declaration is not among the
  sources; the code reads it through \<^verbatim>\<open>model_dump\<close> and \<^verbatim>\<open>hcontext.workflow_run_id()\<close> only.
  \<open>spec_fields\<close> lists the fields that \<^verbatim>\<open>model_dump(mode="json")\<close> covers, in declaration
  order, each with its dumped value, \<open>None\<close> for a field that is \<^verbatim>\<open>None\<close>.
\<close>

record simulation_spec =
  spec_fields :: "(string \<times> json option) list"
  workflow_run_id :: string

text \<open>\<^verbatim>\<open>spec.model_dump(mode="json", exclude_none=True)\<close>\<close>

definition model_dump :: "simulation_spec \<Rightarrow> (string \<times> json) list" where
  "model_dump spec = [(k, v). (k, Some v) \<leftarrow> spec_fields spec]"

definition generate_index_data :: "simulation_spec \<Rightarrow> (string \<times> json) list" where
  "generate_index_data spec =
     (let index_data = model_dump spec;
          workflow_run_id = workflow_run_id spec
      in AList.update ''workflow_run_id'' (JStr workflow_run_id) index_data)"

section \<open>Diagnostics table\<close>

text \<open>
  \<open>end_file\<close> is what \<^verbatim>\<open>end_file.read_text()\<close> does on \<^verbatim>\<open>eplusout.end\<close>: the text, or the
  exception it raises. The index is built after the counts.
\<close>

definition generate_error_warning_counts_df ::
  "exn + string \<Rightarrow> (string \<times> json) list \<Rightarrow> exn + dataframe" where
  "generate_error_warning_counts_df end_file index_data =
     (case end_file of
        Inl e \<Rightarrow> Inl e
      | Inr err_str \<Rightarrow>
         (let severe_ct = severe_ct err_str;
              warning_ct = warning_ct err_str
          in case from_tuples (map snd index_data) (map fst index_data) of
               Inl e \<Rightarrow> Inl e
             | Inr (names, tuples) \<Rightarrow>
                 Inr \<lparr>index_names = names,
                      index_tuples = tuples,
                      columns = [(''warnings'', [CInt warning_ct]),
                                 (''severe'', [CInt severe_ct])]\<rparr>))"

section \<open>The simulate step\<close>

text \<open>
  What the calls into the engine and the file system do during one attempt:
  \<open>prepare\<close> is every statement before the \<^verbatim>\<open>try\<close> (reading the input, copying the model,
  loading it, injecting the design days) and holds the exception that one of them raises;
  \<open>engine\<close> is \<^verbatim>\<open>idf.simulate()\<close> and holds the exception it raises; \<open>sql_store\<close> is
  \<^verbatim>\<open>Sql(idf.sql_file)\<close>; \<open>end_text\<close> is the reading of \<^verbatim>\<open>eplusout.end\<close>.
\<close>

record 'sql attempt =
  prepare :: "exn option"
  engine :: "exn option"
  sql_store :: "exn + 'sql"
  end_text :: "exn + string"

type_synonym 'sql postprocessor =
  "'sql \<Rightarrow> (string \<times> json) list \<Rightarrow> (string \<times> string) list \<Rightarrow> string list
     \<Rightarrow> exn + (string \<times> dataframe) list"

text \<open>
  Modelled from the spec: \<^verbatim>\<open>serialize_df_dict\<close> (of \<^verbatim>\<open>epengine.utils.results\<close>) is not among
  the sources. The spec gives the output of the step as a mapping from result-table name to
  a serialized tabular payload; \<open>ser\<close> is the serialisation of one table, applied to every
  table of the dictionary under its name.
\<close>

definition serialize_df_dict ::
  "(dataframe \<Rightarrow> 'p) \<Rightarrow> (string \<times> dataframe) list \<Rightarrow> (string \<times> 'p) list" where
  "serialize_df_dict ser dfs = map (\<lambda>(name, df). (name, ser df)) dfs"

text \<open>
  The body of the \<^verbatim>\<open>with\<close> block: the tables \<^verbatim>\<open>dfs\<close> before serialisation. An exception
  raised in the \<^verbatim>\<open>else\<close> branch of the \<^verbatim>\<open>try\<close> statement is not handled by its \<^verbatim>\<open>except\<close>
  clause, and neither is one raised in the \<^verbatim>\<open>except\<close> clause itself, where the index of the
  \<^verbatim>\<open>err\<close> table is built. \<open>postprocess\<close> (of \<^verbatim>\<open>epengine.utils.results\<close>) is a parameter.
\<close>

definition simulate_dfs ::
  "'sql postprocessor \<Rightarrow> simulation_spec \<Rightarrow> 'sql attempt \<Rightarrow> exn + (string \<times> dataframe) list" where
  "simulate_dfs postprocess spec w =
     (case prepare w of
        Some e \<Rightarrow> Inl e
      | None \<Rightarrow>
         (case engine w of
            Some e \<Rightarrow>
              (let dfs = [];
                   index_data = generate_index_data spec
               in case from_tuples (map snd index_data) (map fst index_data) of
                    Inl e' \<Rightarrow> Inl e'
                  | Inr (names, tuples) \<Rightarrow>
                     (let err_df = \<lparr>index_names = names,
                                      index_tuples = tuples,
                                      columns = [(''msg'', [CStr (str e)])]\<rparr>
                      in Inr (AList.update ''err'' err_df dfs)))
          | None \<Rightarrow>
              (case sql_store w of
                 Inl e \<Rightarrow> Inl e
               | Inr sql \<Rightarrow>
                  (let index_data = generate_index_data spec
                   in case generate_error_warning_counts_df (end_text w) index_data of
                        Inl e \<Rightarrow> Inl e
                      | Inr err_df \<Rightarrow>
                         (case postprocess sql index_data
                                 [(''AnnualBuildingUtilityPerformanceSummary'', ''End Uses'')]
                                 [''Electricity'', ''Natural Gas'', ''Fuel Oil No 2''] of
                            Inl e \<Rightarrow> Inl e
                          | Inr dfs \<Rightarrow>
                              Inr (AList.update ''energyplus_message_counts'' err_df dfs))))))"

definition simulate ::
  "(dataframe \<Rightarrow> 'p) \<Rightarrow> 'sql postprocessor \<Rightarrow> simulation_spec \<Rightarrow> 'sql attempt
     \<Rightarrow> exn + (string \<times> 'p) list" where
  "simulate ser postprocess spec w =
     (case simulate_dfs postprocess spec w of
        Inl e \<Rightarrow> Inl e
      | Inr dfs \<Rightarrow> Inr (serialize_df_dict ser dfs))"

text \<open>
  The structured output store of the engine, as the step uses it: a function from the
  lookups and the columns to the named tables it holds (their value columns), or to the
  exception that the extraction raises. \<open>nrows\<close> is the number of rows of such a table.
\<close>

type_synonym sql = "(string \<times> string) list \<Rightarrow> string list \<Rightarrow> exn + (string \<times> (string \<times> cell list) list) list"

definition nrows :: "(string \<times> cell list) list \<Rightarrow> nat" where
  "nrows cols = (case cols of [] \<Rightarrow> 0 | (name, cells) # rest \<Rightarrow> length cells)"

text \<open>
  Modelled from the spec: \<^verbatim>\<open>postprocess\<close> (of \<^verbatim>\<open>epengine.utils.results\<close>) is not among the
  sources. The spec says of it that it produces the performance-summary tables extracted
  from the engine's structured output, for a fixed lookup of named summary sections and a
  fixed set of value columns, each row indexed by the Canonical Index.
\<close>

definition postprocess :: "sql postprocessor" where
  "postprocess sql index_data tabular_lookups cols =
     (case sql tabular_lookups cols of
        Inl e \<Rightarrow> Inl e
      | Inr tables \<Rightarrow>
          Inr (map (\<lambda>(name, body).
                 (name, \<lparr>index_names = map fst index_data,
                         index_tuples = replicate (nrows body) (map snd index_data),
                         columns = body\<rparr>)) tables))"

section \<open>Merging the sizing design days\<close>

text \<open>
  A model document (\<^verbatim>\<open>IDF\<close> of archetypal, built on eppy) is its dictionary
  \<^verbatim>\<open>idfobjects\<close>: object type, in upper case, to the sequence of the objects of that type.
  Of an object the code reads \<^verbatim>\<open>key\<close> (its type, as the data dictionary
  spells it) and the field \<^verbatim>\<open>File_Name\<close>, which only some object types have;
  \<open>fieldvalues\<close> are the other contents of the object.
\<close>

record idfobj =
  key :: string
  File_Name :: "string option"
  fieldvalues :: "string list"

type_synonym idf = "(string \<times> idfobj list) list"

text \<open>\<^verbatim>\<open>str.upper\<close> and \<^verbatim>\<open>str.endswith\<close>; object types are ASCII text.\<close>

definition upper :: "string \<Rightarrow> string" where
  "upper s = map (\<lambda>c. if 97 \<le> (of_char c :: nat) \<and> (of_char c :: nat) \<le> 122
                        then char_of ((of_char c :: nat) - 32) else c) s"

definition endswith :: "string \<Rightarrow> string \<Rightarrow> bool" where
  "endswith s suffix = (length suffix \<le> length s \<and> drop (length s - length suffix) s = suffix)"

text \<open>\<^verbatim>\<open>getattr(obj, "File_Name", default)\<close>\<close>

definition getattr_File_Name :: "idfobj \<Rightarrow> string \<Rightarrow> string" where
  "getattr_File_Name obj dflt = (case File_Name obj of None \<Rightarrow> dflt | Some f \<Rightarrow> f)"

definition excluded_keys :: "string list" where
  "excluded_keys = [''SITE:PRECIPITATION'', ''ROOFIRRIGATION'', ''SCHEDULE:FILE'']"

text \<open>The condition of the \<^verbatim>\<open>if\<close> statement that ends in \<^verbatim>\<open>continue\<close>.\<close>

definition skipped :: "idfobj \<Rightarrow> bool" where
  "skipped obj = (upper (key obj) \<in> set excluded_keys
                  \<and> endswith (getattr_File_Name obj ''rain'') ''rain'')"

text \<open>
  The two library calls on the primary document. \<^verbatim>\<open>removeallidfobjects(objtype)\<close> pops the
  objects of \<^verbatim>\<open>idfobjects[objtype]\<close> until none is left; \<^verbatim>\<open>addidfobject(obj)\<close> appends the
  object to \<^verbatim>\<open>idfobjects[obj.key.upper()]\<close>. Both read the dictionary by subscript, which
  raises \<^verbatim>\<open>KeyError\<close> for an object type the document does not have.
\<close>

definition removeallidfobjects :: "idf \<Rightarrow> string \<Rightarrow> exn + idf" where
  "removeallidfobjects idf objtype =
     (case map_of idf objtype of
        None \<Rightarrow> Inl (KeyError objtype)
      | Some objs \<Rightarrow> Inr (AList.update objtype [] idf))"

definition addidfobject :: "idf \<Rightarrow> idfobj \<Rightarrow> exn + idf" where
  "addidfobject idf new_object =
     (let k = upper (key new_object)
      in case map_of idf k of
           None \<Rightarrow> Inl (KeyError k)
         | Some objs \<Rightarrow> Inr (AList.update k (objs @ [new_object]) idf))"

text \<open>The body of the inner loop, for one object of the secondary document.\<close>

definition merge_obj :: "string \<Rightarrow> idfobj \<Rightarrow> idf \<Rightarrow> exn + idf" where
  "merge_obj objtype obj idf =
     (if skipped obj then Inr idf
      else case removeallidfobjects idf objtype of
             Inl e \<Rightarrow> Inl e
           | Inr idf1 \<Rightarrow> addidfobject idf1 obj)"

text \<open>\<^verbatim>\<open>for obj in sequence\<close>\<close>

fun merge_sequence :: "string \<Rightarrow> idfobj list \<Rightarrow> idf \<Rightarrow> exn + idf" where
  "merge_sequence objtype [] idf = Inr idf"
| "merge_sequence objtype (obj # rest) idf =
     (case merge_obj objtype obj idf of
        Inl e \<Rightarrow> Inl e
      | Inr idf1 \<Rightarrow> merge_sequence objtype rest idf1)"

text \<open>\<^verbatim>\<open>for objtype, sequence in ddy.idfobjects.items()\<close>\<close>

fun merge_items :: "(string \<times> idfobj list) list \<Rightarrow> idf \<Rightarrow> exn + idf" where
  "merge_items [] idf = Inr idf"
| "merge_items ((objtype, sequence) # rest) idf =
     (if sequence \<noteq> []
      then case merge_sequence objtype sequence idf of
             Inl e \<Rightarrow> Inl e
           | Inr idf1 \<Rightarrow> merge_items rest idf1
      else merge_items rest idf)"

text \<open>
  \<open>ddy_file\<close> is what loading the secondary document does: the document, or the
  exception that reading or parsing it raises.
\<close>

definition add_sizing_design_day :: "idf \<Rightarrow> exn + idf \<Rightarrow> exn + idf" where
  "add_sizing_design_day idf ddy_file =
     (case ddy_file of
        Inl e \<Rightarrow> Inl e
      | Inr ddy \<Rightarrow> merge_items ddy idf)"

text \<open>
  Documents as the library builds them: a dictionary has each key once, and every object is
  listed under its own type.
\<close>

definition wf_idf :: "idf \<Rightarrow> bool" where
  "wf_idf d = (distinct (map fst d)
               \<and> (\<forall>(objtype, sequence) \<in> set d. \<forall>obj \<in> set sequence. upper (key obj) = objtype))"

section \<open>Sample inputs\<close>

text \<open>
  The two summary texts: the first has the line of the severe errors before the line of
  the warnings; the second has both counts on one line, the warnings first, as the engine
  writes them.
\<close>

definition two_line_summary :: string where
  "two_line_summary =
     ''...  3 Severe Errors...'' @ [CHR 0x0A] @ ''...  7 Warning...'' @ [CHR 0x0A]"

definition one_line_summary :: string where
  "one_line_summary = ''...  7 Warning...  3 Severe Errors...'' @ [CHR 0x0A]"

definition sample_spec :: simulation_spec where
  "sample_spec =
     \<lparr>spec_fields = [(''ddy_path'', None), (''zone'', Some (JStr ''A''))],
      workflow_run_id = ''run-1''\<rparr>"

text \<open>A spec with a field whose dumped value is a list.\<close>

definition tagged_spec :: simulation_spec where
  "tagged_spec =
     \<lparr>spec_fields = [(''zone'', Some (JStr ''A'')), (''tags'', Some (JList [JStr ''retrofit'']))],
      workflow_run_id = ''run-1''\<rparr>"

definition sample_sql :: sql where
  "sample_sql lookups cols =
     Inr [(''AnnualBuildingUtilityPerformanceSummary_End_Uses'', [(''Electricity'', [CInt 120])])]"

definition failed_attempt :: "sql attempt" where
  "failed_attempt =
     \<lparr>prepare = None, engine = Some (Exception ''EnergyPlus terminated''),
      sql_store = Inl (Exception ''no output store''),
      end_text = Inl (Exception ''no summary file'')\<rparr>"

definition successful_attempt :: "sql attempt" where
  "successful_attempt =
     \<lparr>prepare = None, engine = None, sql_store = Inr sample_sql,
      end_text = Inr one_line_summary\<rparr>"

definition attempt_without_end_file :: "sql attempt" where
  "attempt_without_end_file =
     \<lparr>prepare = None, engine = None, sql_store = Inr sample_sql,
      end_text = Inl (Exception ''No such file or directory: eplusout.end'')\<rparr>"

text \<open>
  Objects and documents for the merge: a primary document with one object in each of three
  types, and two secondary documents. The first secondary document has a precipitation
  object, a schedule file that ends in \<^verbatim>\<open>rain\<close> and two design days; the second has a
  schedule file that does not end in \<^verbatim>\<open>rain\<close>.
\<close>

definition rain_schedule :: idfobj where
  "rain_schedule =
     \<lparr>key = ''Schedule:File'', File_Name = Some ''site.rain'',
      fieldvalues = [''RainSchedule'']\<rparr>"

definition weather_schedule :: idfobj where
  "weather_schedule =
     \<lparr>key = ''Schedule:File'', File_Name = Some ''weather.csv'',
      fieldvalues = [''DryBulb'']\<rparr>"

definition precipitation :: idfobj where
  "precipitation =
     \<lparr>key = ''Site:Precipitation'', File_Name = None,
      fieldvalues = [''ScheduleAndDesignLevel'']\<rparr>"

definition heating_design_day :: idfobj where
  "heating_design_day =
     \<lparr>key = ''SizingPeriod:DesignDay'', File_Name = None,
      fieldvalues = [''Ann Htg 99.6% Condns DB'']\<rparr>"

definition cooling_design_day :: idfobj where
  "cooling_design_day =
     \<lparr>key = ''SizingPeriod:DesignDay'', File_Name = None,
      fieldvalues = [''Ann Clg .4% Condns DB=>MWB'']\<rparr>"

definition old_design_day :: idfobj where
  "old_design_day =
     \<lparr>key = ''SizingPeriod:DesignDay'', File_Name = None,
      fieldvalues = [''Summer Design Day'']\<rparr>"

definition old_schedule :: idfobj where
  "old_schedule =
     \<lparr>key = ''Schedule:File'', File_Name = Some ''occupancy.csv'',
      fieldvalues = [''Occupancy'']\<rparr>"

definition old_precipitation :: idfobj where
  "old_precipitation =
     \<lparr>key = ''Site:Precipitation'', File_Name = None,
      fieldvalues = [''Measured'']\<rparr>"

definition primary_idf :: idf where
  "primary_idf = [(''SITE:PRECIPITATION'', [old_precipitation]), (''SCHEDULE:FILE'', [old_schedule]),
                  (''SIZINGPERIOD:DESIGNDAY'', [old_design_day])]"

definition ddy_rain :: idf where
  "ddy_rain = [(''SITE:PRECIPITATION'', [precipitation]), (''SCHEDULE:FILE'', [rain_schedule]),
               (''SIZINGPERIOD:DESIGNDAY'', [heating_design_day, cooling_design_day])]"

definition ddy_weather :: idf where
  "ddy_weather = [(''SITE:PRECIPITATION'', []), (''SCHEDULE:FILE'', [weather_schedule]),
               (''SIZINGPERIOD:DESIGNDAY'', [])]"

text \<open>
  A third secondary document, whose sequence of schedule files has one that does not end
  in \<^verbatim>\<open>rain\<close> followed by one that does.
\<close>

definition ddy_mixed :: idf where
  "ddy_mixed = [(''SITE:PRECIPITATION'', []), (''SCHEDULE:FILE'', [weather_schedule, rain_schedule]),
               (''SIZINGPERIOD:DESIGNDAY'', [])]"

section \<open>Association lists\<close>

lemma update_fresh: "k \<notin> set (map fst al) \<Longrightarrow> AList.update k v al = al @ [(k, v)]"
  by (induction al) auto

lemma update_keys_present:
  "k \<in> set (map fst al) \<Longrightarrow> map fst (AList.update k v al) = map fst al"
  by (induction al) auto

lemma set_update_subset: "set (AList.update k v al) \<subseteq> insert (k, v) (set al)"
  by (induction al) auto

lemma map_of_serialize: "map_of (serialize_df_dict ser dfs) k = map_option ser (map_of dfs k)"
  unfolding serialize_df_dict_def by (induction dfs) auto

section \<open>What a match captures\<close>

lemma first_some_SomeD: "first_some rs = Some r \<Longrightarrow> Some r \<in> set rs"
  by (induction rs rule: first_some.induct) auto

lemma rmatch_tail: "rmatch (One c # Lit l # [Star c']) s = Some gs \<Longrightarrow> gs = []"
  by (cases s) (auto split: if_splits dest!: first_some_SomeD)

lemma take_run:
  assumes k: "k \<le> length (takeWhile P s)" and x: "x \<in> set (take k s)"
  shows "P x"
proof -
  from x obtain i where i: "i < k" "i < length s" "x = s ! i"
    by (auto simp: in_set_conv_nth)
  with k have l: "i < length (takeWhile P s)" by simp
  then have "takeWhile P s ! i = s ! i" by (rule takeWhile_nth)
  with l i(3) have "x \<in> set (takeWhile P s)" by (metis nth_mem)
  then show ?thesis by (auto dest: set_takeWhileD)
qed

lemma rmatch_group:
  assumes "rmatch (Group_plus c # One c1 # Lit l # [Star c2]) s = Some gs"
  shows "\<exists>d. gs = [d] \<and> d \<noteq> [] \<and> (\<forall>x \<in> set d. cls_match c x)"
proof -
  let ?f = "\<lambda>k. map_option ((#) (take k s)) (rmatch (One c1 # Lit l # [Star c2]) (drop k s))"
  from assms have "first_some (map ?f (rev [1 ..< Suc (length (takeWhile (cls_match c) s))])) = Some gs"
    by simp
  then have "Some gs \<in> set (map ?f (rev [1 ..< Suc (length (takeWhile (cls_match c) s))]))"
    by (rule first_some_SomeD)
  then have "\<exists>k \<in> set (rev [1 ..< Suc (length (takeWhile (cls_match c) s))]). Some gs = ?f k"
    by (simp only: set_map image_iff)
  then obtain k where kk: "k \<in> set (rev [1 ..< Suc (length (takeWhile (cls_match c) s))])"
    and m: "?f k = Some gs"
    by (metis (no_types, lifting))
  from kk have k: "1 \<le> k" "k \<le> length (takeWhile (cls_match c) s)"
    by auto
  from m obtain gs' where g: "rmatch (One c1 # Lit l # [Star c2]) (drop k s) = Some gs'"
    "gs = take k s # gs'" by auto
  from g(1) have "gs' = []" by (rule rmatch_tail)
  moreover from k have "take k s \<noteq> []" using length_takeWhile_le [of "cls_match c" s] by auto
  moreover have "\<forall>x \<in> set (take k s). cls_match c x"
    using take_run [OF k(2)] by blast
  ultimately show ?thesis using g(2) by blast
qed

lemma rmatch_one_group:
  assumes "rmatch [Star c0, One c1, Group_plus c, One c2, Lit l, Star c3] s = Some gs"
  shows "\<exists>d. gs = [d] \<and> d \<noteq> [] \<and> (\<forall>x \<in> set d. cls_match c x)"
proof -
  let ?f = "\<lambda>k. rmatch [One c1, Group_plus c, One c2, Lit l, Star c3] (drop k s)"
  from assms have "first_some (map ?f (rev [0 ..< Suc (length (takeWhile (cls_match c0) s))])) = Some gs"
    by simp
  then have "Some gs \<in> set (map ?f (rev [0 ..< Suc (length (takeWhile (cls_match c0) s))]))"
    by (rule first_some_SomeD)
  then have "\<exists>k \<in> set (rev [0 ..< Suc (length (takeWhile (cls_match c0) s))]). Some gs = ?f k"
    by (simp only: set_map image_iff)
  then obtain k where
    "rmatch [One c1, Group_plus c, One c2, Lit l, Star c3] (drop k s) = Some gs"
    by (metis (no_types, lifting))
  then obtain t where "rmatch [Group_plus c, One c2, Lit l, Star c3] t = Some gs"
    by (cases "drop k s") (auto split: if_splits)
  then show ?thesis by (rule rmatch_group)
qed

lemma matched_groups:
  "rmatch severe_reg s = Some gs \<Longrightarrow> \<exists>d. gs = [d] \<and> d \<noteq> [] \<and> (\<forall>x \<in> set d. cls_match Digit x)"
  "rmatch warning_reg s = Some gs \<Longrightarrow> \<exists>d. gs = [d] \<and> d \<noteq> [] \<and> (\<forall>x \<in> set d. cls_match Digit x)"
  unfolding severe_reg_def warning_reg_def by (rule rmatch_one_group, assumption)+

section \<open>The index\<close>

lemma dump_keys:
  "map fst [(k, v). (k, Some v) \<leftarrow> xs] = map fst (filter (\<lambda>(k, v). v \<noteq> None) xs)"
  by (induction xs) (auto split: option.splits)

lemma model_dump_keys:
  "map fst (model_dump spec) = map fst (filter (\<lambda>(k, v). v \<noteq> None) (spec_fields spec))"
  unfolding model_dump_def by (rule dump_keys)

text \<open>
  Claim C3, as amended. The keys of the index are the names of the fields of the spec that
  are not \<^verbatim>\<open>None\<close>, in declaration order, followed by the key \<^verbatim>\<open>workflow_run_id\<close> (not
  \<^verbatim>\<open>run_id\<close>), whose value is the run identifier; when the spec has a field of that name
  that is not \<^verbatim>\<open>None\<close>, no key is added and the run identifier takes the place of that
  field's value.
\<close>

theorem generate_index_data_keys:
  "map fst (generate_index_data spec) =
     (let names = map fst (filter (\<lambda>(k, v). v \<noteq> None) (spec_fields spec))
      in if ''workflow_run_id'' \<in> set names then names else names @ [''workflow_run_id''])
   \<and> map_of (generate_index_data spec) ''workflow_run_id'' = Some (JStr (workflow_run_id spec))"
proof -
  let ?names = "map fst (filter (\<lambda>(k, v). v \<noteq> None) (spec_fields spec))"
  have names: "map fst (model_dump spec) = ?names"
    by (rule model_dump_keys)
  have keys: "map fst (generate_index_data spec) =
      (if ''workflow_run_id'' \<in> set ?names then ?names else ?names @ [''workflow_run_id''])"
  proof (cases "''workflow_run_id'' \<in> set (map fst (model_dump spec))")
    case True
    then show ?thesis
      using update_keys_present [OF True] names by (simp add: generate_index_data_def)
  next
    case False
    then show ?thesis
      using update_fresh [OF False] names by (simp add: generate_index_data_def)
  qed
  have val: "map_of (generate_index_data spec) ''workflow_run_id''
      = Some (JStr (workflow_run_id spec))"
    by (simp add: generate_index_data_def update_conv')
  from keys val show ?thesis by (simp add: Let_def)
qed

text \<open>For the sample spec the theorem gives the keys \<^verbatim>\<open>zone\<close>, \<^verbatim>\<open>workflow_run_id\<close>.\<close>

theorem generate_index_data_keys_witness:
  "map fst (generate_index_data sample_spec) = [''zone'', ''workflow_run_id'']
   \<and> map_of (generate_index_data sample_spec) ''workflow_run_id'' = Some (JStr ''run-1'')"
  using generate_index_data_keys [of sample_spec] by (simp add: sample_spec_def)

text \<open>
  The claim as written fails on the sample spec: the last key of its index is not
  \<^verbatim>\<open>run_id\<close>.
\<close>

theorem generate_index_data_run_id_counterexample:
  "map fst (generate_index_data sample_spec) \<noteq> [''zone'', ''run_id'']"
  by (simp add: generate_index_data_def model_dump_def sample_spec_def)

section \<open>Building the index\<close>

lemma from_tuples_ok:
  "tuple \<noteq> [] \<Longrightarrow> list_all hashable tuple \<Longrightarrow> from_tuples tuple names = Inr (names, [tuple])"
  by (simp add: from_tuples_def find_None_iff list_all_iff split: option.splits)

lemma from_tuples_unhashable:
  "\<not> list_all hashable tuple \<Longrightarrow> \<exists>msg. from_tuples tuple names = Inl (TypeError msg)"
  by (cases "find (\<lambda>v. \<not> hashable v) tuple")
     (auto simp: from_tuples_def find_None_iff list_all_iff)

lemma from_tuples_InrD:
  assumes "from_tuples tuple names = Inr r"
  shows "r = (names, [tuple]) \<and> tuple \<noteq> [] \<and> list_all hashable tuple"
proof -
  from assms have ne: "tuple \<noteq> []"
    by (auto simp: from_tuples_def)
  from assms from_tuples_unhashable [of tuple names] have h: "list_all hashable tuple"
    by auto
  from from_tuples_ok [OF ne h, of names] assms show ?thesis
    using ne h by simp
qed

lemma index_values_nonempty: "map snd (generate_index_data spec) \<noteq> []"
  by (simp add: generate_index_data_def)

lemma counts_df_ok:
  assumes "index_data \<noteq> []" "list_all hashable (map snd index_data)"
  shows "generate_error_warning_counts_df (Inr err_str) index_data =
     Inr \<lparr>index_names = map fst index_data, index_tuples = [map snd index_data],
          columns = [(''warnings'', [CInt (warning_ct err_str)]),
                     (''severe'', [CInt (severe_ct err_str)])]\<rparr>"
proof -
  from assms(1) have "map snd index_data \<noteq> []" by simp
  from from_tuples_ok [OF this assms(2), of "map fst index_data"] show ?thesis
    by (simp add: generate_error_warning_counts_df_def)
qed

lemma counts_df_InrD:
  assumes "generate_error_warning_counts_df end_file index_data = Inr df"
  shows "\<exists>err_str. end_file = Inr err_str \<and> list_all hashable (map snd index_data)
     \<and> df = \<lparr>index_names = map fst index_data, index_tuples = [map snd index_data],
          columns = [(''warnings'', [CInt (warning_ct err_str)]),
                     (''severe'', [CInt (severe_ct err_str)])]\<rparr>"
proof -
  from assms obtain err_str where t: "end_file = Inr err_str"
    by (cases end_file) (auto simp: generate_error_warning_counts_df_def)
  with assms obtain r where r: "from_tuples (map snd index_data) (map fst index_data) = Inr r"
    by (cases "from_tuples (map snd index_data) (map fst index_data)")
       (auto simp: generate_error_warning_counts_df_def)
  from from_tuples_InrD [OF r] have v: "r = (map fst index_data, [map snd index_data])"
    and h: "list_all hashable (map snd index_data)" by simp_all
  from assms t r v have "df = \<lparr>index_names = map fst index_data,
          index_tuples = [map snd index_data],
          columns = [(''warnings'', [CInt (warning_ct err_str)]),
                     (''severe'', [CInt (severe_ct err_str)])]\<rparr>"
    by (simp add: generate_error_warning_counts_df_def)
  with t h show ?thesis by blast
qed

lemma err_table:
  assumes "prepare w = None" "engine w = Some e"
    and "list_all hashable (map snd (generate_index_data spec))"
  shows "simulate_dfs pp spec w =
     Inr [(''err'', \<lparr>index_names = map fst (generate_index_data spec),
                    index_tuples = [map snd (generate_index_data spec)],
                    columns = [(''msg'', [CStr (str e)])]\<rparr>)]"
proof -
  from from_tuples_ok [OF index_values_nonempty assms(3), of "map fst (generate_index_data spec)"]
  show ?thesis
    using assms(1,2) by (simp add: simulate_dfs_def Let_def)
qed

lemma err_table_not_built:
  assumes "prepare w = None" "engine w = Some e"
    and "\<not> list_all hashable (map snd (generate_index_data spec))"
  shows "\<exists>msg. simulate_dfs pp spec w = Inl (TypeError msg)"
proof -
  from from_tuples_unhashable [OF assms(3), of "map fst (generate_index_data spec)"]
  obtain msg where
    "from_tuples (map snd (generate_index_data spec)) (map fst (generate_index_data spec))
       = Inl (TypeError msg)" ..
  then show ?thesis
    using assms(1,2) by (simp add: simulate_dfs_def Let_def)
qed

section \<open>Values of the sample inputs\<close>

lemma sample_index:
  "generate_index_data sample_spec = [(''zone'', JStr ''A''), (''workflow_run_id'', JStr ''run-1'')]"
  by (simp add: generate_index_data_def model_dump_def sample_spec_def)

lemma tagged_index:
  "generate_index_data tagged_spec =
     [(''zone'', JStr ''A''), (''tags'', JList [JStr ''retrofit'']), (''workflow_run_id'', JStr ''run-1'')]"
  by (simp add: generate_index_data_def model_dump_def tagged_spec_def)

lemma one_line_counts: "warning_ct one_line_summary = 7" "severe_ct one_line_summary = 3"
  by (simp_all add: one_line_summary_def severe_ct_def warning_ct_def severe_reg_def
      warning_reg_def count_of_def int_of_digits_def)

lemma two_line_counts: "warning_ct two_line_summary = 0" "severe_ct two_line_summary = 3"
  by (simp_all add: two_line_summary_def severe_ct_def warning_ct_def severe_reg_def
      warning_reg_def count_of_def int_of_digits_def)

lemma repr_list: "repr ''list'' = [CHR 0x27] @ ''list'' @ [CHR 0x27]"
  by (simp add: repr_def repr_char_def Let_def)

section \<open>The failure branch\<close>

text \<open>
  Claim C2, as amended. When the engine call raises an exception and every value of the
  index of the attempt can be hashed (no field of the spec is dumped as a list or a
  dictionary), the step does not raise it again: it returns exactly one table, named
  \<^verbatim>\<open>err\<close>, with one row, whose column \<^verbatim>\<open>msg\<close> holds the string form of the exception and
  whose index is the index of the attempt. When a value of the index is a list or a
  dictionary, building the index of that table raises \<^verbatim>\<open>TypeError\<close> in the \<^verbatim>\<open>except\<close> clause
  and the step returns no tables.
\<close>

theorem engine_exception_gives_err_table:
  "prepare w = None \<Longrightarrow> engine w = Some e \<Longrightarrow>
   (list_all hashable (map snd (generate_index_data spec)) \<longrightarrow>
      simulate ser pp spec w =
        Inr [(''err'', ser \<lparr>index_names = map fst (generate_index_data spec),
                            index_tuples = [map snd (generate_index_data spec)],
                            columns = [(''msg'', [CStr (str e)])]\<rparr>)])
   \<and> (\<not> list_all hashable (map snd (generate_index_data spec)) \<longrightarrow>
      (\<exists>msg. simulate ser pp spec w = Inl (TypeError msg)))"
proof -
  assume p: "prepare w = None" and g: "engine w = Some e"
  have built: "simulate ser pp spec w =
        Inr [(''err'', ser \<lparr>index_names = map fst (generate_index_data spec),
                            index_tuples = [map snd (generate_index_data spec)],
                            columns = [(''msg'', [CStr (str e)])]\<rparr>)]"
    if "list_all hashable (map snd (generate_index_data spec))"
    using err_table [OF p g that, of pp]
    by (simp add: simulate_def serialize_df_dict_def)
  have not_built: "\<exists>msg. simulate ser pp spec w = Inl (TypeError msg)"
    if "\<not> list_all hashable (map snd (generate_index_data spec))"
    using err_table_not_built [OF p g that, of pp]
    by (auto simp: simulate_def)
  from built not_built show ?thesis by blast
qed

theorem engine_exception_gives_err_table_witness:
  "prepare failed_attempt = None \<and> engine failed_attempt = Some (Exception ''EnergyPlus terminated'')
   \<and> list_all hashable (map snd (generate_index_data sample_spec))
   \<and> simulate (\<lambda>df. df) postprocess sample_spec failed_attempt =
       Inr [(''err'', \<lparr>index_names = [''zone'', ''workflow_run_id''],
                      index_tuples = [[JStr ''A'', JStr ''run-1'']],
                      columns = [(''msg'', [CStr ''EnergyPlus terminated''])]\<rparr>)]
   \<and> \<not> list_all hashable (map snd (generate_index_data tagged_spec))
   \<and> (\<exists>msg. simulate (\<lambda>df. df) postprocess tagged_spec failed_attempt = Inl (TypeError msg))"
proof -
  have e: "prepare failed_attempt = None"
    "engine failed_attempt = Some (Exception ''EnergyPlus terminated'')"
    by (simp_all add: failed_attempt_def)
  have h: "list_all hashable (map snd (generate_index_data sample_spec))"
    by (simp add: sample_index)
  have n: "\<not> list_all hashable (map snd (generate_index_data tagged_spec))"
    by (simp add: tagged_index)
  from engine_exception_gives_err_table [OF e, of sample_spec "\<lambda>df. df" postprocess] h
  have "simulate (\<lambda>df. df) postprocess sample_spec failed_attempt =
       Inr [(''err'', \<lparr>index_names = map fst (generate_index_data sample_spec),
                      index_tuples = [map snd (generate_index_data sample_spec)],
                      columns = [(''msg'', [CStr (str (Exception ''EnergyPlus terminated''))])]\<rparr>)]"
    by blast
  then have first: "simulate (\<lambda>df. df) postprocess sample_spec failed_attempt =
       Inr [(''err'', \<lparr>index_names = [''zone'', ''workflow_run_id''],
                      index_tuples = [[JStr ''A'', JStr ''run-1'']],
                      columns = [(''msg'', [CStr ''EnergyPlus terminated''])]\<rparr>)]"
    by (simp add: sample_index)
  from engine_exception_gives_err_table [OF e, of tagged_spec "\<lambda>df. df" postprocess] n
  have second: "\<exists>msg. simulate (\<lambda>df. df) postprocess tagged_spec failed_attempt = Inl (TypeError msg)"
    by blast
  from e h first n second show ?thesis by blast
qed

text \<open>
  The claim as written fails on the spec with a list-valued field: the engine call raises,
  and the step raises \<^verbatim>\<open>TypeError\<close> instead of returning the \<^verbatim>\<open>err\<close> table.
\<close>

theorem engine_exception_unhashable_index_counterexample:
  "prepare failed_attempt = None \<and> engine failed_attempt = Some (Exception ''EnergyPlus terminated'')
   \<and> simulate (\<lambda>df. df) postprocess tagged_spec failed_attempt =
       Inl (TypeError (''unhashable type: '' @ [CHR 0x27] @ ''list'' @ [CHR 0x27]))"
proof -
  have e: "prepare failed_attempt = None"
    "engine failed_attempt = Some (Exception ''EnergyPlus terminated'')"
    by (simp_all add: failed_attempt_def)
  have "from_tuples (map snd (generate_index_data tagged_spec))
          (map fst (generate_index_data tagged_spec)) =
        Inl (TypeError (''unhashable type: '' @ repr (type_name (JList [JStr ''retrofit'']))))"
    by (simp add: tagged_index from_tuples_def)
  then have "simulate (\<lambda>df. df) postprocess tagged_spec failed_attempt =
       Inl (TypeError (''unhashable type: '' @ [CHR 0x27] @ ''list'' @ [CHR 0x27]))"
    using e by (simp add: simulate_def simulate_dfs_def Let_def repr_list)
  with e show ?thesis by blast
qed

section \<open>The success branch\<close>

text \<open>
  Claim C9. When the engine call succeeds and reading \<^verbatim>\<open>eplusout.end\<close> raises, the step
  raises that exception and returns no tables: the \<^verbatim>\<open>except\<close> clause covers the engine call
  only. So an attempt whose engine call succeeded returns tables only when the output store
  opened, the summary file was read and \<^verbatim>\<open>postprocess\<close> returned.
\<close>

theorem end_file_exception_propagates:
  "(prepare w = None \<and> engine w = None \<and> sql_store w = Inr sql \<and> end_text w = Inl e
      \<longrightarrow> simulate ser pp spec w = Inl e)
   \<and> (engine w = None \<and> simulate ser pp spec w = Inr tables
      \<longrightarrow> (\<exists>sql' err_str dfs. sql_store w = Inr sql' \<and> end_text w = Inr err_str
            \<and> pp sql' (generate_index_data spec)
                 [(''AnnualBuildingUtilityPerformanceSummary'', ''End Uses'')]
                 [''Electricity'', ''Natural Gas'', ''Fuel Oil No 2''] = Inr dfs))"
proof -
  have raised: "simulate ser pp spec w = Inl e"
    if "prepare w = None" "engine w = None" "sql_store w = Inr sql" "end_text w = Inl e"
    using that
    by (simp add: simulate_def simulate_dfs_def generate_error_warning_counts_df_def Let_def)
  have returned: "\<exists>sql' err_str dfs. sql_store w = Inr sql' \<and> end_text w = Inr err_str
            \<and> pp sql' (generate_index_data spec)
                 [(''AnnualBuildingUtilityPerformanceSummary'', ''End Uses'')]
                 [''Electricity'', ''Natural Gas'', ''Fuel Oil No 2''] = Inr dfs"
    if g: "engine w = None" and r: "simulate ser pp spec w = Inr tables"
  proof -
    from r obtain dfs' where d: "simulate_dfs pp spec w = Inr dfs'"
      by (cases "simulate_dfs pp spec w") (auto simp: simulate_def)
    from d g obtain sql' where s: "sql_store w = Inr sql'"
      by (cases "sql_store w") (auto simp: simulate_dfs_def split: option.splits)
    from d g s obtain err_df where
      c: "generate_error_warning_counts_df (end_text w) (generate_index_data spec) = Inr err_df"
      by (cases "generate_error_warning_counts_df (end_text w) (generate_index_data spec)")
         (auto simp: simulate_dfs_def Let_def split: option.splits)
    from counts_df_InrD [OF c] obtain err_str where t: "end_text w = Inr err_str"
      by blast
    from d g s c obtain dfs where "pp sql' (generate_index_data spec)
                 [(''AnnualBuildingUtilityPerformanceSummary'', ''End Uses'')]
                 [''Electricity'', ''Natural Gas'', ''Fuel Oil No 2''] = Inr dfs"
      by (cases "pp sql' (generate_index_data spec)
                 [(''AnnualBuildingUtilityPerformanceSummary'', ''End Uses'')]
                 [''Electricity'', ''Natural Gas'', ''Fuel Oil No 2'']")
         (auto simp: simulate_dfs_def Let_def split: option.splits)
    with s t show ?thesis by blast
  qed
  from raised returned show ?thesis by blast
qed

theorem end_file_exception_propagates_witness:
  "prepare attempt_without_end_file = None \<and> engine attempt_without_end_file = None
   \<and> sql_store attempt_without_end_file = Inr sample_sql
   \<and> end_text attempt_without_end_file = Inl (Exception ''No such file or directory: eplusout.end'')
   \<and> simulate (\<lambda>df. df) postprocess sample_spec attempt_without_end_file =
       Inl (Exception ''No such file or directory: eplusout.end'')
   \<and> engine successful_attempt = None
   \<and> simulate (\<lambda>df. df) (\<lambda>sql index_data lookups cols. Inr []) sample_spec successful_attempt =
       Inr [(''energyplus_message_counts'',
             \<lparr>index_names = [''zone'', ''workflow_run_id''],
              index_tuples = [[JStr ''A'', JStr ''run-1'']],
              columns = [(''warnings'', [CInt 7]), (''severe'', [CInt 3])]\<rparr>)]
   \<and> sql_store successful_attempt = Inr sample_sql
   \<and> end_text successful_attempt = Inr one_line_summary"
proof -
  have h: "prepare attempt_without_end_file = None" "engine attempt_without_end_file = None"
    "sql_store attempt_without_end_file = Inr sample_sql"
    "end_text attempt_without_end_file = Inl (Exception ''No such file or directory: eplusout.end'')"
    by (simp_all add: attempt_without_end_file_def)
  from end_file_exception_propagates [of attempt_without_end_file sample_sql
      "Exception ''No such file or directory: eplusout.end''" "\<lambda>df. df" postprocess sample_spec] h
  have first: "simulate (\<lambda>df. df) postprocess sample_spec attempt_without_end_file =
       Inl (Exception ''No such file or directory: eplusout.end'')"
    by blast
  have g: "engine successful_attempt = None"
    by (simp add: successful_attempt_def)
  have r: "simulate (\<lambda>df. df) (\<lambda>sql index_data lookups cols. Inr []) sample_spec successful_attempt =
     Inr [(''energyplus_message_counts'',
           \<lparr>index_names = [''zone'', ''workflow_run_id''],
            index_tuples = [[JStr ''A'', JStr ''run-1'']],
            columns = [(''warnings'', [CInt 7]), (''severe'', [CInt 3])]\<rparr>)]"
    by (simp add: simulate_def simulate_dfs_def successful_attempt_def sample_index
        one_line_counts generate_error_warning_counts_df_def from_tuples_def
        serialize_df_dict_def)
  from end_file_exception_propagates [of successful_attempt _ _ "\<lambda>df. df"
      "\<lambda>sql index_data lookups cols. Inr []" sample_spec] g r
  obtain sql' err_str where "sql_store successful_attempt = Inr sql'"
    "end_text successful_attempt = Inr err_str"
    by blast
  then have second: "sql_store successful_attempt = Inr sample_sql"
    "end_text successful_attempt = Inr one_line_summary"
    by (simp_all add: successful_attempt_def)
  from h first g r second show ?thesis by blast
qed

text \<open>
  Claim C8, as amended. When the engine call succeeds and the rest of the success branch
  raises nothing (the output store opens, \<^verbatim>\<open>eplusout.end\<close> is read, every value of the index
  can be hashed, \<^verbatim>\<open>postprocess\<close> returns its tables), the returned tables hold, under the
  name \<^verbatim>\<open>energyplus_message_counts\<close> (not \<^verbatim>\<open>message_counts\<close>), the table of one row with the
  two columns \<^verbatim>\<open>warnings\<close> and \<^verbatim>\<open>severe\<close>, indexed by the index of the attempt.
\<close>

theorem message_counts_table:
  "prepare w = None \<Longrightarrow> engine w = None \<Longrightarrow> sql_store w = Inr sql \<Longrightarrow> end_text w = Inr err_str
   \<Longrightarrow> list_all hashable (map snd (generate_index_data spec))
   \<Longrightarrow> pp sql (generate_index_data spec)
         [(''AnnualBuildingUtilityPerformanceSummary'', ''End Uses'')]
         [''Electricity'', ''Natural Gas'', ''Fuel Oil No 2''] = Inr dfs
   \<Longrightarrow> \<exists>tables. simulate ser pp spec w = Inr tables \<and>
         map_of tables ''energyplus_message_counts'' =
           Some (ser \<lparr>index_names = map fst (generate_index_data spec),
                      index_tuples = [map snd (generate_index_data spec)],
                      columns = [(''warnings'', [CInt (warning_ct err_str)]),
                                 (''severe'', [CInt (severe_ct err_str)])]\<rparr>)"
proof -
  assume h: "prepare w = None" "engine w = None" "sql_store w = Inr sql" "end_text w = Inr err_str"
    and hash: "list_all hashable (map snd (generate_index_data spec))"
    and pp: "pp sql (generate_index_data spec)
         [(''AnnualBuildingUtilityPerformanceSummary'', ''End Uses'')]
         [''Electricity'', ''Natural Gas'', ''Fuel Oil No 2''] = Inr dfs"
  have "generate_index_data spec \<noteq> []"
    using index_values_nonempty [of spec] by auto
  from counts_df_ok [OF this hash, of err_str] h pp show ?thesis
    by (simp add: simulate_def simulate_dfs_def Let_def map_of_serialize update_conv')
qed

theorem message_counts_table_witness:
  "prepare successful_attempt = None \<and> engine successful_attempt = None
   \<and> sql_store successful_attempt = Inr sample_sql
   \<and> end_text successful_attempt = Inr one_line_summary
   \<and> list_all hashable (map snd (generate_index_data sample_spec))
   \<and> (\<exists>tables. simulate (\<lambda>df. df) (\<lambda>sql index_data lookups cols. Inr []) sample_spec
                  successful_attempt = Inr tables
        \<and> map_of tables ''energyplus_message_counts'' =
           Some \<lparr>index_names = [''zone'', ''workflow_run_id''],
                 index_tuples = [[JStr ''A'', JStr ''run-1'']],
                 columns = [(''warnings'', [CInt 7]), (''severe'', [CInt 3])]\<rparr>)"
proof -
  have h: "prepare successful_attempt = None" "engine successful_attempt = None"
    "sql_store successful_attempt = Inr sample_sql"
    "end_text successful_attempt = Inr one_line_summary"
    by (simp_all add: successful_attempt_def)
  have hash: "list_all hashable (map snd (generate_index_data sample_spec))"
    by (simp add: sample_index)
  have pp: "(\<lambda>sql index_data lookups cols. Inr []) sample_sql (generate_index_data sample_spec)
         [(''AnnualBuildingUtilityPerformanceSummary'', ''End Uses'')]
         [''Electricity'', ''Natural Gas'', ''Fuel Oil No 2''] = (Inr [] :: exn + (string \<times> dataframe) list)"
    by simp
  from message_counts_table [OF h hash pp, of "\<lambda>df. df"]
  obtain tables where t:
    "simulate (\<lambda>df. df) (\<lambda>sql index_data lookups cols. Inr []) sample_spec successful_attempt
       = Inr tables"
    "map_of tables ''energyplus_message_counts'' =
       Some \<lparr>index_names = map fst (generate_index_data sample_spec),
             index_tuples = [map snd (generate_index_data sample_spec)],
             columns = [(''warnings'', [CInt (warning_ct one_line_summary)]),
                        (''severe'', [CInt (severe_ct one_line_summary)])]\<rparr>"
    by blast
  from t(2) have "map_of tables ''energyplus_message_counts'' =
           Some \<lparr>index_names = [''zone'', ''workflow_run_id''],
                 index_tuples = [[JStr ''A'', JStr ''run-1'']],
                 columns = [(''warnings'', [CInt 7]), (''severe'', [CInt 3])]\<rparr>"
    by (simp only: sample_index one_line_counts list.map fst_conv snd_conv)
  with t(1) h hash show ?thesis by blast
qed

text \<open>
  The claim as written fails on the sample attempt: the returned tables have no table named
  \<^verbatim>\<open>message_counts\<close>.
\<close>

theorem message_counts_name_counterexample:
  "simulate (\<lambda>df. df) (\<lambda>sql index_data lookups cols. Inr []) sample_spec successful_attempt =
     Inr [(''energyplus_message_counts'',
           \<lparr>index_names = [''zone'', ''workflow_run_id''],
            index_tuples = [[JStr ''A'', JStr ''run-1'']],
            columns = [(''warnings'', [CInt 7]), (''severe'', [CInt 3])]\<rparr>)]
   \<and> map_of (projr (simulate (\<lambda>df. df) (\<lambda>sql index_data lookups cols. Inr []) sample_spec
         successful_attempt)) ''message_counts'' = None"
proof -
  have r: "simulate (\<lambda>df. df) (\<lambda>sql index_data lookups cols. Inr []) sample_spec successful_attempt =
     Inr [(''energyplus_message_counts'',
           \<lparr>index_names = [''zone'', ''workflow_run_id''],
            index_tuples = [[JStr ''A'', JStr ''run-1'']],
            columns = [(''warnings'', [CInt 7]), (''severe'', [CInt 3])]\<rparr>)]"
    by (simp add: simulate_def simulate_dfs_def successful_attempt_def sample_index
        one_line_counts generate_error_warning_counts_df_def from_tuples_def
        serialize_df_dict_def)
  show ?thesis unfolding r by simp
qed

text \<open>
  Claim C4, as amended. Both patterns are matched from the start of the text, and \<^verbatim>\<open>.\<close> does
  not cross a line break. On the one-line summary (warnings, then severe errors) the
  extraction gives 7 warnings and 3 severe errors; on the two-line text of the claim
  (severe errors on the first line, warnings on the second) it gives 3 severe errors and 0
  warnings; on a text that neither pattern matches it gives 0 and 0. The counts are the
  two columns of the table, which is built when the index has a key and every value of
  the index can be hashed.
\<close>

theorem diagnostics_extraction:
  "severe_ct one_line_summary = 3 \<and> warning_ct one_line_summary = 7
   \<and> severe_ct two_line_summary = 3 \<and> warning_ct two_line_summary = 0
   \<and> (rmatch severe_reg err_str = None \<and> rmatch warning_reg err_str = None \<longrightarrow>
        severe_ct err_str = 0 \<and> warning_ct err_str = 0)
   \<and> (index_data \<noteq> [] \<and> list_all hashable (map snd index_data) \<longrightarrow>
        generate_error_warning_counts_df (Inr err_str) index_data =
          Inr \<lparr>index_names = map fst index_data, index_tuples = [map snd index_data],
               columns = [(''warnings'', [CInt (warning_ct err_str)]),
                          (''severe'', [CInt (severe_ct err_str)])]\<rparr>)"
proof -
  have none: "severe_ct err_str = 0 \<and> warning_ct err_str = 0"
    if "rmatch severe_reg err_str = None" "rmatch warning_reg err_str = None"
    using that by (simp add: severe_ct_def warning_ct_def count_of_def)
  have table: "generate_error_warning_counts_df (Inr err_str) index_data =
          Inr \<lparr>index_names = map fst index_data, index_tuples = [map snd index_data],
               columns = [(''warnings'', [CInt (warning_ct err_str)]),
                          (''severe'', [CInt (severe_ct err_str)])]\<rparr>"
    if "index_data \<noteq> []" "list_all hashable (map snd index_data)"
    using that by (rule counts_df_ok)
  from one_line_counts two_line_counts none table show ?thesis by blast
qed

theorem diagnostics_extraction_witness:
  "rmatch severe_reg ''Completed'' = None \<and> rmatch warning_reg ''Completed'' = None
   \<and> severe_ct ''Completed'' = 0 \<and> warning_ct ''Completed'' = 0
   \<and> [(''workflow_run_id'', JStr ''run-1'')] \<noteq> []
   \<and> list_all hashable (map snd [(''workflow_run_id'', JStr ''run-1'')])
   \<and> generate_error_warning_counts_df (Inr ''Completed'') [(''workflow_run_id'', JStr ''run-1'')] =
         Inr \<lparr>index_names = [''workflow_run_id''], index_tuples = [[JStr ''run-1'']],
              columns = [(''warnings'', [CInt 0]), (''severe'', [CInt 0])]\<rparr>"
proof -
  have n: "rmatch severe_reg ''Completed'' = None" "rmatch warning_reg ''Completed'' = None"
    by (simp_all add: severe_reg_def warning_reg_def)
  have i: "[(''workflow_run_id'', JStr ''run-1'')] \<noteq> []"
    "list_all hashable (map snd [(''workflow_run_id'', JStr ''run-1'')])"
    by simp_all
  from diagnostics_extraction [of "''Completed''" "[(''workflow_run_id'', JStr ''run-1'')]"] n
  have z: "severe_ct ''Completed'' = 0" "warning_ct ''Completed'' = 0"
    by blast+
  from diagnostics_extraction [of "''Completed''" "[(''workflow_run_id'', JStr ''run-1'')]"] i
  have "generate_error_warning_counts_df (Inr ''Completed'') [(''workflow_run_id'', JStr ''run-1'')] =
         Inr \<lparr>index_names = map fst [(''workflow_run_id'', JStr ''run-1'')],
              index_tuples = [map snd [(''workflow_run_id'', JStr ''run-1'')]],
              columns = [(''warnings'', [CInt (warning_ct ''Completed'')]),
                         (''severe'', [CInt (severe_ct ''Completed'')])]\<rparr>"
    by blast
  then have "generate_error_warning_counts_df (Inr ''Completed'') [(''workflow_run_id'', JStr ''run-1'')] =
         Inr \<lparr>index_names = [''workflow_run_id''], index_tuples = [[JStr ''run-1'']],
              columns = [(''warnings'', [CInt 0]), (''severe'', [CInt 0])]\<rparr>"
    by (simp only: z list.map fst_conv snd_conv)
  with n z i show ?thesis by blast
qed

text \<open>On the two-line text the extraction does not give 7 warnings.\<close>

theorem diagnostics_extraction_two_line_counterexample:
  "generate_error_warning_counts_df (Inr two_line_summary) [(''workflow_run_id'', JStr ''run-1'')] \<noteq>
     Inr \<lparr>index_names = [''workflow_run_id''], index_tuples = [[JStr ''run-1'']],
              columns = [(''warnings'', [CInt 7]), (''severe'', [CInt 3])]\<rparr>"
  by (simp add: generate_error_warning_counts_df_def from_tuples_def two_line_counts)

section \<open>One index for both branches\<close>

lemma postprocess_index_names:
  "postprocess sql index_data lookups cols = Inr dfs \<Longrightarrow> (name, df) \<in> set dfs
   \<Longrightarrow> index_names df = map fst index_data"
  unfolding postprocess_def by (auto split: sum.splits)

text \<open>
  Claim C1. For one spec and run identifier, every table of an attempt whose engine call
  succeeded and the one table of an attempt whose engine call raised have the same index
  names, in the same order: the keys of the index of the attempt. The tables are those
  before serialisation, which is applied to each table under its name.
\<close>

theorem index_keys_success_eq_failure:
  assumes ok: "engine wok = None" "simulate_dfs postprocess spec wok = Inr dfs"
      and failed: "prepare wfail = None" "engine wfail = Some e"
  shows "\<exists>err_df. simulate_dfs postprocess spec wfail = Inr [(''err'', err_df)]
           \<and> (\<forall>(name, df) \<in> set dfs. index_names df = index_names err_df)
           \<and> index_names err_df = map fst (generate_index_data spec)"
proof -
  let ?idx = "generate_index_data spec"
  let ?err = "\<lparr>index_names = map fst ?idx, index_tuples = [map snd ?idx],
                columns = [(''msg'', [CStr (str e)])]\<rparr>"
  from ok obtain sql where s: "sql_store wok = Inr sql"
    by (cases "sql_store wok") (auto simp: simulate_dfs_def split: option.splits)
  from ok s obtain err_df where
    cnt: "generate_error_warning_counts_df (end_text wok) ?idx = Inr err_df"
    by (cases "generate_error_warning_counts_df (end_text wok) ?idx")
       (auto simp: simulate_dfs_def Let_def split: option.splits)
  from ok s cnt obtain dfs0 where
    pp: "postprocess sql ?idx [(''AnnualBuildingUtilityPerformanceSummary'', ''End Uses'')]
                 [''Electricity'', ''Natural Gas'', ''Fuel Oil No 2''] = Inr dfs0"
    and dfs: "dfs = AList.update ''energyplus_message_counts'' err_df dfs0"
    by (cases "postprocess sql ?idx [(''AnnualBuildingUtilityPerformanceSummary'', ''End Uses'')]
                 [''Electricity'', ''Natural Gas'', ''Fuel Oil No 2'']")
       (auto simp: simulate_dfs_def Let_def split: option.splits)
  from counts_df_InrD [OF cnt] have hash: "list_all hashable (map snd ?idx)"
    and e: "index_names err_df = map fst ?idx"
    by auto
  have f: "simulate_dfs postprocess spec wfail = Inr [(''err'', ?err)]"
    by (rule err_table [OF failed hash])
  have "index_names df = map fst ?idx" if mem: "(name, df) \<in> set dfs" for name df
  proof -
    from mem dfs set_update_subset [of "''energyplus_message_counts''" err_df dfs0]
    have "(name, df) = (''energyplus_message_counts'', err_df) \<or> (name, df) \<in> set dfs0"
      by auto
    then show ?thesis
      using e postprocess_index_names [OF pp] by auto
  qed
  with f show ?thesis by auto
qed

theorem index_keys_success_eq_failure_witness:
  "engine successful_attempt = None
   \<and> simulate_dfs postprocess sample_spec successful_attempt =
       Inr [(''AnnualBuildingUtilityPerformanceSummary_End_Uses'',
             \<lparr>index_names = [''zone'', ''workflow_run_id''], index_tuples = [[JStr ''A'', JStr ''run-1'']],
              columns = [(''Electricity'', [CInt 120])]\<rparr>),
            (''energyplus_message_counts'',
             \<lparr>index_names = [''zone'', ''workflow_run_id''], index_tuples = [[JStr ''A'', JStr ''run-1'']],
              columns = [(''warnings'', [CInt 7]), (''severe'', [CInt 3])]\<rparr>)]
   \<and> prepare failed_attempt = None \<and> engine failed_attempt = Some (Exception ''EnergyPlus terminated'')
   \<and> (\<exists>err_df. simulate_dfs postprocess sample_spec failed_attempt = Inr [(''err'', err_df)]
        \<and> index_names err_df = [''zone'', ''workflow_run_id''])"
proof -
  have ok: "simulate_dfs postprocess sample_spec successful_attempt =
       Inr [(''AnnualBuildingUtilityPerformanceSummary_End_Uses'',
             \<lparr>index_names = [''zone'', ''workflow_run_id''], index_tuples = [[JStr ''A'', JStr ''run-1'']],
              columns = [(''Electricity'', [CInt 120])]\<rparr>),
            (''energyplus_message_counts'',
             \<lparr>index_names = [''zone'', ''workflow_run_id''], index_tuples = [[JStr ''A'', JStr ''run-1'']],
              columns = [(''warnings'', [CInt 7]), (''severe'', [CInt 3])]\<rparr>)]"
    by (simp add: simulate_dfs_def sample_index successful_attempt_def
        generate_error_warning_counts_df_def from_tuples_def one_line_counts postprocess_def
        sample_sql_def nrows_def)
  have e: "engine successful_attempt = None" "prepare failed_attempt = None"
     "engine failed_attempt = Some (Exception ''EnergyPlus terminated'')"
    by (simp_all add: successful_attempt_def failed_attempt_def)
  from index_keys_success_eq_failure [OF e(1) ok e(2) e(3)]
  obtain err_df where c: "simulate_dfs postprocess sample_spec failed_attempt = Inr [(''err'', err_df)]"
     "index_names err_df = map fst (generate_index_data sample_spec)"
    by blast
  from c(2) have "index_names err_df = [''zone'', ''workflow_run_id'']"
    by (simp only: sample_index list.map fst_conv)
  with c(1) have "\<exists>err_df. simulate_dfs postprocess sample_spec failed_attempt = Inr [(''err'', err_df)]
        \<and> index_names err_df = [''zone'', ''workflow_run_id'']"
    by blast
  with e ok show ?thesis by blast
qed

section \<open>The merge, object by object\<close>

lemma merge_obj_skipped: "skipped obj \<Longrightarrow> merge_obj objtype obj idf = Inr idf"
  by (simp add: merge_obj_def)

lemma map_of_keys: "objtype \<in> fst ` set idf \<Longrightarrow> \<exists>objs. map_of idf objtype = Some objs"
  by (cases "map_of idf objtype") (auto simp: map_of_eq_None_iff)

lemma merge_obj_replace:
  assumes "\<not> skipped obj" "upper (key obj) = objtype" "objtype \<in> fst ` set idf"
  shows "merge_obj objtype obj idf = Inr (AList.update objtype [obj] idf)"
proof -
  from map_of_keys [OF assms(3)] obtain objs where "map_of idf objtype = Some objs" ..
  then show ?thesis
    using assms(1,2)
    by (simp add: merge_obj_def removeallidfobjects_def addidfobject_def update_conv')
qed

lemma merge_sequence_result:
  assumes "\<forall>obj \<in> set sequence. upper (key obj) = objtype" "objtype \<in> fst ` set idf"
  shows "merge_sequence objtype sequence idf =
     Inr (case filter (\<lambda>obj. \<not> skipped obj) sequence of
            [] \<Rightarrow> idf
          | x # xs \<Rightarrow> AList.update objtype [last (x # xs)] idf)"
  using assms
proof (induction sequence arbitrary: idf)
  case Nil
  then show ?case by simp
next
  case (Cons obj rest)
  show ?case
  proof (cases "skipped obj")
    case True
    with Cons show ?thesis by (simp add: merge_obj_skipped)
  next
    case False
    from Cons.prems have k: "upper (key obj) = objtype" by simp
    have step: "merge_obj objtype obj idf = Inr (AList.update objtype [obj] idf)"
      using merge_obj_replace [OF False k Cons.prems(2)] .
    have keys: "objtype \<in> fst ` set (AList.update objtype [obj] idf)"
      by (simp add: dom_update)
    from Cons.prems have rest: "\<forall>obj \<in> set rest. upper (key obj) = objtype" by simp
    show ?thesis
      using False step Cons.IH [OF rest keys]
      by (simp split: list.splits)
  qed
qed

lemma keys_after_sequence:
  "objtype \<in> fst ` set idf \<Longrightarrow>
   fst ` set (case ys of [] \<Rightarrow> idf | x # xs \<Rightarrow> AList.update objtype [last (x # xs)] idf) = fst ` set idf"
  by (cases ys) (auto simp: dom_update)

lemma map_of_after_sequence:
  "map_of (case ys of [] \<Rightarrow> idf | x # xs \<Rightarrow> AList.update objtype [last (x # xs)] idf) t =
     (if t = objtype then (case ys of [] \<Rightarrow> map_of idf t | x # xs \<Rightarrow> Some [last (x # xs)])
      else map_of idf t)"
  by (cases ys) (auto simp: update_conv')

lemma merge_items_result:
  assumes "distinct (map fst ddy)"
    and "\<forall>(objtype, sequence) \<in> set ddy. \<forall>obj \<in> set sequence. upper (key obj) = objtype"
    and "fst ` set ddy \<subseteq> fst ` set idf"
  shows "\<exists>idf'. merge_items ddy idf = Inr idf' \<and> fst ` set idf' = fst ` set idf \<and>
     (\<forall>t. map_of idf' t =
        (case map_of ddy t of
           None \<Rightarrow> map_of idf t
         | Some sequence \<Rightarrow>
            (case filter (\<lambda>obj. \<not> skipped obj) sequence of
               [] \<Rightarrow> map_of idf t
             | x # xs \<Rightarrow> Some [last (x # xs)])))"
  using assms
proof (induction ddy arbitrary: idf)
  case Nil
  then show ?case by simp
next
  case (Cons item rest)
  obtain objtype sequence where item: "item = (objtype, sequence)" by (cases item)
  let ?kept = "filter (\<lambda>obj. \<not> skipped obj) sequence"
  let ?idf1 = "case ?kept of [] \<Rightarrow> idf | x # xs \<Rightarrow> AList.update objtype [last (x # xs)] idf"
  from Cons.prems item have own: "\<forall>obj \<in> set sequence. upper (key obj) = objtype"
    and known: "objtype \<in> fst ` set idf" by auto
  have seq: "merge_sequence objtype sequence idf = Inr ?idf1"
    by (rule merge_sequence_result [OF own known])
  have head: "merge_items (item # rest) idf = merge_items rest ?idf1"
  proof (cases "sequence = []")
    case True
    then show ?thesis by (simp add: item)
  next
    case False
    then show ?thesis by (simp add: item seq)
  qed
  have keys1: "fst ` set ?idf1 = fst ` set idf"
    by (rule keys_after_sequence [OF known])
  from Cons.prems item have d: "distinct (map fst rest)" and fresh: "objtype \<notin> fst ` set rest"
    and wf: "\<forall>(objtype, sequence) \<in> set rest. \<forall>obj \<in> set sequence. upper (key obj) = objtype"
    and sub: "fst ` set rest \<subseteq> fst ` set ?idf1"
    by (auto simp: keys1)
  from Cons.IH [OF d wf sub] obtain idf' where
    r: "merge_items rest ?idf1 = Inr idf'" and k: "fst ` set idf' = fst ` set ?idf1"
    and m: "\<And>t. map_of idf' t =
        (case map_of rest t of
           None \<Rightarrow> map_of ?idf1 t
         | Some sequence \<Rightarrow>
            (case filter (\<lambda>obj. \<not> skipped obj) sequence of
               [] \<Rightarrow> map_of ?idf1 t
             | x # xs \<Rightarrow> Some [last (x # xs)]))"
    by blast
  from fresh have none: "map_of rest objtype = None"
    by (simp add: map_of_eq_None_iff)
  have "map_of idf' t =
        (case map_of (item # rest) t of
           None \<Rightarrow> map_of idf t
         | Some sequence \<Rightarrow>
            (case filter (\<lambda>obj. \<not> skipped obj) sequence of
               [] \<Rightarrow> map_of idf t
             | x # xs \<Rightarrow> Some [last (x # xs)]))" for t
  proof (cases "t = objtype")
    case True
    then show ?thesis
      using m [of objtype] none by (simp add: item map_of_after_sequence split: list.splits)
  next
    case False
    then have eq: "map_of ?idf1 t = map_of idf t"
      by (simp add: map_of_after_sequence)
    from False show ?thesis
      using m [of t] unfolding eq by (simp add: item)
  qed
  with head r k keys1 show ?case by auto
qed

section \<open>The merge, type by type\<close>

text \<open>
  After the merge of a secondary document into a primary document that has all its object
  types, a type of the secondary document holds, in the primary document, the last object
  of its sequence that was not skipped, and what it held before when all were skipped.
\<close>

lemma merged_category:
  assumes wf: "wf_idf ddy" and sub: "fst ` set ddy \<subseteq> fst ` set idf"
    and mem: "(objtype, sequence) \<in> set ddy"
  shows "\<exists>idf'. add_sizing_design_day idf (Inr ddy) = Inr idf' \<and>
     map_of idf' objtype =
       (case filter (\<lambda>obj. \<not> skipped obj) sequence of
          [] \<Rightarrow> map_of idf objtype
        | x # xs \<Rightarrow> Some [last (x # xs)])"
proof -
  from wf have d: "distinct (map fst ddy)"
    and own: "\<forall>(objtype, sequence) \<in> set ddy. \<forall>obj \<in> set sequence. upper (key obj) = objtype"
    by (simp_all add: wf_idf_def)
  from d mem have look: "map_of ddy objtype = Some sequence"
    by (rule map_of_is_SomeI)
  from merge_items_result [OF d own sub] obtain idf' where
    r: "merge_items ddy idf = Inr idf'" and
    m: "\<And>t. map_of idf' t =
        (case map_of ddy t of
           None \<Rightarrow> map_of idf t
         | Some sequence \<Rightarrow>
            (case filter (\<lambda>obj. \<not> skipped obj) sequence of
               [] \<Rightarrow> map_of idf t
             | x # xs \<Rightarrow> Some [last (x # xs)]))"
    by blast
  from m [of objtype] look have "map_of idf' objtype =
       (case filter (\<lambda>obj. \<not> skipped obj) sequence of
          [] \<Rightarrow> map_of idf objtype
        | x # xs \<Rightarrow> Some [last (x # xs)])"
    by simp
  with r show ?thesis by (simp add: add_sizing_design_day_def)
qed

lemma merged_all_skipped:
  assumes "wf_idf ddy" "fst ` set ddy \<subseteq> fst ` set idf" "(objtype, sequence) \<in> set ddy"
    and "\<forall>obj \<in> set sequence. skipped obj"
  shows "\<exists>idf'. add_sizing_design_day idf (Inr ddy) = Inr idf' \<and>
     map_of idf' objtype = map_of idf objtype"
proof -
  from assms(4) have "filter (\<lambda>obj. \<not> skipped obj) sequence = []"
    by (simp add: filter_empty_conv)
  with merged_category [OF assms(1-3)] show ?thesis by simp
qed

lemma last_kept:
  "xs \<noteq> [] \<Longrightarrow> P (last xs) \<Longrightarrow> filter P xs \<noteq> [] \<and> last (filter P xs) = last xs"
  by (induction xs) (auto split: if_splits)

lemma merged_last_kept:
  assumes "wf_idf ddy" "fst ` set ddy \<subseteq> fst ` set idf" "(objtype, sequence) \<in> set ddy"
    and "sequence \<noteq> []" "\<not> skipped (last sequence)"
  shows "\<exists>idf'. add_sizing_design_day idf (Inr ddy) = Inr idf' \<and>
     map_of idf' objtype = Some [last sequence]"
proof -
  let ?kept = "filter (\<lambda>obj. \<not> skipped obj) sequence"
  from last_kept [of sequence "\<lambda>obj. \<not> skipped obj", OF assms(4,5)]
  have ne: "?kept \<noteq> []" and l: "last ?kept = last sequence"
    by simp_all
  from ne obtain x xs where c: "?kept = x # xs" by (cases ?kept) auto
  with l have "last (x # xs) = last sequence" by simp
  with merged_category [OF assms(1-3)] c show ?thesis by simp
qed

lemma not_excluded_not_skipped: "upper (key obj) \<notin> set excluded_keys \<Longrightarrow> \<not> skipped obj"
  by (simp add: skipped_def)

text \<open>
  Claim C7. For an object type outside the exclusion list that has at least one object in
  the secondary document, the primary document holds after the merge exactly one object of
  that type, the last of the secondary document's sequence. The documents are as the
  library builds them, and the primary document has the object types of the secondary.
\<close>

theorem design_day_category_replaced:
  assumes "wf_idf ddy" "fst ` set ddy \<subseteq> fst ` set idf" "(objtype, sequence) \<in> set ddy"
    and "sequence \<noteq> []" "objtype \<notin> set excluded_keys"
  shows "\<exists>idf'. add_sizing_design_day idf (Inr ddy) = Inr idf' \<and>
     map_of idf' objtype = Some [last sequence]"
proof -
  from assms(1,3) have "\<forall>obj \<in> set sequence. upper (key obj) = objtype"
    by (auto simp: wf_idf_def)
  with assms(4) have "upper (key (last sequence)) = objtype" by simp
  with assms(5) have "\<not> skipped (last sequence)"
    by (simp add: not_excluded_not_skipped)
  with merged_last_kept [OF assms(1-4)] show ?thesis by blast
qed

theorem design_day_category_replaced_witness:
  "wf_idf ddy_rain \<and> fst ` set ddy_rain \<subseteq> fst ` set primary_idf
   \<and> (''SIZINGPERIOD:DESIGNDAY'', [heating_design_day, cooling_design_day]) \<in> set ddy_rain
   \<and> [heating_design_day, cooling_design_day] \<noteq> []
   \<and> ''SIZINGPERIOD:DESIGNDAY'' \<notin> set excluded_keys
   \<and> (\<exists>idf'. add_sizing_design_day primary_idf (Inr ddy_rain) = Inr idf'
         \<and> map_of idf' ''SIZINGPERIOD:DESIGNDAY'' = Some [cooling_design_day])"
proof -
  have h: "wf_idf ddy_rain" "fst ` set ddy_rain \<subseteq> fst ` set primary_idf"
    "(''SIZINGPERIOD:DESIGNDAY'', [heating_design_day, cooling_design_day]) \<in> set ddy_rain"
    "[heating_design_day, cooling_design_day] \<noteq> []"
    "''SIZINGPERIOD:DESIGNDAY'' \<notin> set excluded_keys"
    by code_simp+
  from design_day_category_replaced [OF h]
  have "\<exists>idf'. add_sizing_design_day primary_idf (Inr ddy_rain) = Inr idf'
         \<and> map_of idf' ''SIZINGPERIOD:DESIGNDAY'' = Some [cooling_design_day]"
    by simp
  with h show ?thesis by blast
qed

text \<open>
  Claim C6, as amended. An object of an excluded type whose \<^verbatim>\<open>File_Name\<close> ends in \<^verbatim>\<open>rain\<close> is
  passed over: its turn of the loop leaves the primary document as it was, nothing is
  removed and nothing is copied for it. When every object of the type's sequence in the
  secondary document is such an object, the primary document holds after the merge the
  objects of that type it held before; another object of the sequence that is not passed
  over still replaces them.
\<close>

theorem rain_file_object_skipped:
  assumes "upper (key obj) \<in> set excluded_keys" "File_Name obj = Some f" "endswith f ''rain''"
  shows "merge_obj objtype obj idf = Inr idf
    \<and> (wf_idf ddy \<and> fst ` set ddy \<subseteq> fst ` set idf \<and> (objtype, sequence) \<in> set ddy
        \<and> (\<forall>ob \<in> set sequence. upper (key ob) \<in> set excluded_keys
              \<and> (\<exists>g. File_Name ob = Some g \<and> endswith g ''rain''))
       \<longrightarrow> (\<exists>idf'. add_sizing_design_day idf (Inr ddy) = Inr idf'
              \<and> map_of idf' objtype = map_of idf objtype))"
proof -
  from assms have "skipped obj"
    by (simp add: skipped_def getattr_File_Name_def)
  then have step: "merge_obj objtype obj idf = Inr idf"
    by (rule merge_obj_skipped)
  have whole: "\<exists>idf'. add_sizing_design_day idf (Inr ddy) = Inr idf'
              \<and> map_of idf' objtype = map_of idf objtype"
    if h: "wf_idf ddy" "fst ` set ddy \<subseteq> fst ` set idf" "(objtype, sequence) \<in> set ddy"
      and a: "\<forall>ob \<in> set sequence. upper (key ob) \<in> set excluded_keys
              \<and> (\<exists>g. File_Name ob = Some g \<and> endswith g ''rain'')"
  proof -
    from a have "\<forall>ob \<in> set sequence. skipped ob"
      by (auto simp: skipped_def getattr_File_Name_def)
    with merged_all_skipped [OF h] show ?thesis by blast
  qed
  from step whole show ?thesis by blast
qed

theorem rain_file_object_skipped_witness:
  "upper (key rain_schedule) \<in> set excluded_keys \<and> File_Name rain_schedule = Some ''site.rain''
   \<and> endswith ''site.rain'' ''rain''
   \<and> wf_idf ddy_rain \<and> fst ` set ddy_rain \<subseteq> fst ` set primary_idf
   \<and> (''SCHEDULE:FILE'', [rain_schedule]) \<in> set ddy_rain
   \<and> merge_obj ''SCHEDULE:FILE'' rain_schedule primary_idf = Inr primary_idf
   \<and> (\<exists>idf'. add_sizing_design_day primary_idf (Inr ddy_rain) = Inr idf'
         \<and> map_of idf' ''SCHEDULE:FILE'' = Some [old_schedule])"
proof -
  have a: "upper (key rain_schedule) \<in> set excluded_keys"
    "File_Name rain_schedule = Some ''site.rain''" "endswith ''site.rain'' ''rain''"
    by code_simp+
  have h: "wf_idf ddy_rain" "fst ` set ddy_rain \<subseteq> fst ` set primary_idf"
    "(''SCHEDULE:FILE'', [rain_schedule]) \<in> set ddy_rain"
    by code_simp+
  have old: "map_of primary_idf ''SCHEDULE:FILE'' = Some [old_schedule]"
    by code_simp
  from a have every: "\<forall>ob \<in> set [rain_schedule]. upper (key ob) \<in> set excluded_keys
      \<and> (\<exists>g. File_Name ob = Some g \<and> endswith g ''rain'')"
    by simp
  from rain_file_object_skipped [OF a, of "''SCHEDULE:FILE''" primary_idf ddy_rain "[rain_schedule]"]
    h every
  have "merge_obj ''SCHEDULE:FILE'' rain_schedule primary_idf = Inr primary_idf"
    and "\<exists>idf'. add_sizing_design_day primary_idf (Inr ddy_rain) = Inr idf'
         \<and> map_of idf' ''SCHEDULE:FILE'' = map_of primary_idf ''SCHEDULE:FILE''"
    by blast+
  with a h old show ?thesis by simp
qed

text \<open>
  The claim as written fails on the third sample document: its second schedule file ends
  in \<^verbatim>\<open>rain\<close> and is passed over, but the first one does not and replaces the schedule
  file of the primary document, so the objects of that type are not those held before.
\<close>

theorem rain_file_object_mixed_sequence_counterexample:
  "upper (key rain_schedule) \<in> set excluded_keys
   \<and> File_Name rain_schedule = Some ''site.rain'' \<and> endswith ''site.rain'' ''rain''
   \<and> (''SCHEDULE:FILE'', [weather_schedule, rain_schedule]) \<in> set ddy_mixed
   \<and> map_of primary_idf ''SCHEDULE:FILE'' = Some [old_schedule]
   \<and> add_sizing_design_day primary_idf (Inr ddy_mixed) =
       Inr [(''SITE:PRECIPITATION'', [old_precipitation]), (''SCHEDULE:FILE'', [weather_schedule]),
            (''SIZINGPERIOD:DESIGNDAY'', [old_design_day])]
   \<and> weather_schedule \<noteq> old_schedule"
  by code_simp

text \<open>
  Claim C10. For an object of an excluded type without the field \<^verbatim>\<open>File_Name\<close>, the default
  \<^verbatim>\<open>"rain"\<close> stands for the file reference, so the object is passed over like one whose
  file reference ends in \<^verbatim>\<open>rain\<close>, and the primary document's objects of that type stay as
  they were.
\<close>

theorem object_without_file_name_skipped:
  assumes "upper (key obj) \<in> set excluded_keys" "File_Name obj = None"
  shows "getattr_File_Name obj ''rain'' = ''rain'' \<and> skipped obj
    \<and> merge_obj objtype obj idf = Inr idf
    \<and> (wf_idf ddy \<and> fst ` set ddy \<subseteq> fst ` set idf \<and> (objtype, sequence) \<in> set ddy
        \<and> (\<forall>ob \<in> set sequence. upper (key ob) \<in> set excluded_keys \<and> File_Name ob = None)
       \<longrightarrow> (\<exists>idf'. add_sizing_design_day idf (Inr ddy) = Inr idf'
              \<and> map_of idf' objtype = map_of idf objtype))"
proof -
  from assms have g: "getattr_File_Name obj ''rain'' = ''rain''"
    by (simp add: getattr_File_Name_def)
  with assms have s: "skipped obj"
    by (simp add: skipped_def endswith_def)
  then have step: "merge_obj objtype obj idf = Inr idf"
    by (rule merge_obj_skipped)
  have whole: "\<exists>idf'. add_sizing_design_day idf (Inr ddy) = Inr idf'
              \<and> map_of idf' objtype = map_of idf objtype"
    if h: "wf_idf ddy" "fst ` set ddy \<subseteq> fst ` set idf" "(objtype, sequence) \<in> set ddy"
      and a: "\<forall>ob \<in> set sequence. upper (key ob) \<in> set excluded_keys \<and> File_Name ob = None"
  proof -
    from a have "\<forall>ob \<in> set sequence. skipped ob"
      by (auto simp: skipped_def getattr_File_Name_def endswith_def)
    with merged_all_skipped [OF h] show ?thesis by blast
  qed
  from g s step whole show ?thesis by blast
qed

theorem object_without_file_name_skipped_witness:
  "upper (key precipitation) \<in> set excluded_keys \<and> File_Name precipitation = None
   \<and> wf_idf ddy_rain \<and> fst ` set ddy_rain \<subseteq> fst ` set primary_idf
   \<and> (''SITE:PRECIPITATION'', [precipitation]) \<in> set ddy_rain
   \<and> skipped precipitation
   \<and> merge_obj ''SITE:PRECIPITATION'' precipitation primary_idf = Inr primary_idf
   \<and> (\<exists>idf'. add_sizing_design_day primary_idf (Inr ddy_rain) = Inr idf'
         \<and> map_of idf' ''SITE:PRECIPITATION'' = Some [old_precipitation])"
proof -
  have a: "upper (key precipitation) \<in> set excluded_keys" "File_Name precipitation = None"
    by code_simp+
  have h: "wf_idf ddy_rain" "fst ` set ddy_rain \<subseteq> fst ` set primary_idf"
    "(''SITE:PRECIPITATION'', [precipitation]) \<in> set ddy_rain"
    by code_simp+
  have old: "map_of primary_idf ''SITE:PRECIPITATION'' = Some [old_precipitation]"
    by code_simp
  from a have every: "\<forall>ob \<in> set [precipitation]. upper (key ob) \<in> set excluded_keys
      \<and> File_Name ob = None"
    by simp
  from object_without_file_name_skipped [OF a, of "''SITE:PRECIPITATION''" primary_idf ddy_rain
      "[precipitation]"] h every
  have "skipped precipitation"
    and "merge_obj ''SITE:PRECIPITATION'' precipitation primary_idf = Inr primary_idf"
    and "\<exists>idf'. add_sizing_design_day primary_idf (Inr ddy_rain) = Inr idf'
         \<and> map_of idf' ''SITE:PRECIPITATION'' = map_of primary_idf ''SITE:PRECIPITATION''"
    by blast+
  with a h old show ?thesis by simp
qed

text \<open>
  Claim C5, as amended. An object of an excluded type whose \<^verbatim>\<open>File_Name\<close> does not end in
  \<^verbatim>\<open>rain\<close> is not passed over: its turn of the loop removes every object of its type from
  the primary document and inserts the object, so that the type then holds exactly that
  object; when it is the last object of its sequence, this is what the type holds after
  the merge.
\<close>

theorem other_file_object_replaces_category:
  assumes "upper (key obj) \<in> set excluded_keys" "File_Name obj = Some f" "\<not> endswith f ''rain''"
    and "upper (key obj) = objtype"
  shows "(objtype \<in> fst ` set idf \<longrightarrow>
            merge_obj objtype obj idf = Inr (AList.update objtype [obj] idf)
            \<and> map_of (AList.update objtype [obj] idf) objtype = Some [obj])
    \<and> (wf_idf ddy \<and> fst ` set ddy \<subseteq> fst ` set idf \<and> (objtype, sequence) \<in> set ddy
        \<and> sequence \<noteq> [] \<and> last sequence = obj
       \<longrightarrow> (\<exists>idf'. add_sizing_design_day idf (Inr ddy) = Inr idf'
              \<and> map_of idf' objtype = Some [obj]))"
proof -
  from assms(2,3) have n: "\<not> skipped obj"
    by (simp add: skipped_def getattr_File_Name_def)
  have step: "merge_obj objtype obj idf = Inr (AList.update objtype [obj] idf)"
    if "objtype \<in> fst ` set idf"
    by (rule merge_obj_replace [OF n assms(4) that])
  have look: "map_of (AList.update objtype [obj] idf) objtype = Some [obj]"
    by (simp add: update_conv')
  have whole: "\<exists>idf'. add_sizing_design_day idf (Inr ddy) = Inr idf'
              \<and> map_of idf' objtype = Some [obj]"
    if h: "wf_idf ddy" "fst ` set ddy \<subseteq> fst ` set idf" "(objtype, sequence) \<in> set ddy"
       "sequence \<noteq> []" and l: "last sequence = obj"
  proof -
    from n l have "\<not> skipped (last sequence)" by simp
    from merged_last_kept [OF h this] l show ?thesis by simp
  qed
  from step look whole show ?thesis by blast
qed

theorem other_file_object_replaces_category_witness:
  "upper (key weather_schedule) \<in> set excluded_keys
   \<and> File_Name weather_schedule = Some ''weather.csv'' \<and> \<not> endswith ''weather.csv'' ''rain''
   \<and> upper (key weather_schedule) = ''SCHEDULE:FILE''
   \<and> ''SCHEDULE:FILE'' \<in> fst ` set primary_idf
   \<and> wf_idf ddy_weather \<and> fst ` set ddy_weather \<subseteq> fst ` set primary_idf
   \<and> (''SCHEDULE:FILE'', [weather_schedule]) \<in> set ddy_weather
   \<and> merge_obj ''SCHEDULE:FILE'' weather_schedule primary_idf =
       Inr (AList.update ''SCHEDULE:FILE'' [weather_schedule] primary_idf)
   \<and> (\<exists>idf'. add_sizing_design_day primary_idf (Inr ddy_weather) = Inr idf'
         \<and> map_of idf' ''SCHEDULE:FILE'' = Some [weather_schedule])"
proof -
  have a: "upper (key weather_schedule) \<in> set excluded_keys"
    "File_Name weather_schedule = Some ''weather.csv''" "\<not> endswith ''weather.csv'' ''rain''"
    "upper (key weather_schedule) = ''SCHEDULE:FILE''"
    by code_simp+
  have k: "''SCHEDULE:FILE'' \<in> fst ` set primary_idf"
    by code_simp
  have h: "wf_idf ddy_weather" "fst ` set ddy_weather \<subseteq> fst ` set primary_idf"
    "(''SCHEDULE:FILE'', [weather_schedule]) \<in> set ddy_weather"
    by code_simp+
  have l: "[weather_schedule] \<noteq> [] \<and> last [weather_schedule] = weather_schedule"
    by simp
  from other_file_object_replaces_category [OF a, of primary_idf ddy_weather "[weather_schedule]"]
    k h l
  have "merge_obj ''SCHEDULE:FILE'' weather_schedule primary_idf =
       Inr (AList.update ''SCHEDULE:FILE'' [weather_schedule] primary_idf)"
    and "\<exists>idf'. add_sizing_design_day primary_idf (Inr ddy_weather) = Inr idf'
         \<and> map_of idf' ''SCHEDULE:FILE'' = Some [weather_schedule]"
    by blast+
  with a k h show ?thesis by blast
qed

text \<open>
  The claim as written fails on the second sample document: its schedule file is of an
  excluded type and does not end in \<^verbatim>\<open>rain\<close>, and the merge replaces the schedule file of
  the primary document by it.
\<close>

theorem other_file_object_not_skipped_counterexample:
  "upper (key weather_schedule) \<in> set excluded_keys
   \<and> File_Name weather_schedule = Some ''weather.csv'' \<and> \<not> endswith ''weather.csv'' ''rain''
   \<and> map_of primary_idf ''SCHEDULE:FILE'' = Some [old_schedule]
   \<and> add_sizing_design_day primary_idf (Inr ddy_weather) =
       Inr [(''SITE:PRECIPITATION'', [old_precipitation]), (''SCHEDULE:FILE'', [weather_schedule]),
            (''SIZINGPERIOD:DESIGNDAY'', [old_design_day])]
   \<and> weather_schedule \<noteq> old_schedule"
  by code_simp

end
